theory Spec2Isabelle
  imports Main "HOL-Library.Sublist"
begin

unbundle bit_operations_syntax

section \<open>Python strings\<close>

text \<open>
  A Python \<open>str\<close> is modelled as a \<open>string\<close>, each \<open>char\<close> standing for the code point
  of the same number (so the model covers text whose code points lie below 256, which
  includes everything the lookup and fetch tools print for DNS answers and HTTP headers).
  \<open>isspace\<close> lists the code points below 256 that \<open>str.isspace\<close> accepts, \<open>linebreak\<close>
  those at which \<open>str.splitlines\<close> cuts.
\<close>

definition isspace :: "char \<Rightarrow> bool" where
  "isspace c = (of_char c \<in> {9, 10, 11, 12, 13, 28, 29, 30, 31, 32, 133, 160 :: nat})"

definition linebreak :: "char \<Rightarrow> bool" where
  "linebreak c = (of_char c \<in> {10, 11, 12, 13, 28, 29, 30, 133 :: nat})"

text \<open>
  Reading a child's output as text turns a carriage return, alone or followed by a line
  feed, into a line feed.
\<close>

fun universal_newlines :: "string \<Rightarrow> string" where
  "universal_newlines [] = []"
| "universal_newlines [c] = [if c = CHR 0x0D then CHR 0x0A else c]"
| "universal_newlines (c # d # cs) =
     (if c = CHR 0x0D then
        (if d = CHR 0x0A then CHR 0x0A # universal_newlines cs
         else CHR 0x0A # universal_newlines (d # cs))
      else c # universal_newlines (d # cs))"

definition strip :: "string \<Rightarrow> string" where
  "strip t = rev (dropWhile isspace (rev (dropWhile isspace t)))"

text \<open>
  \<open>str.splitlines()\<close>: the first argument holds the current line, reversed. A carriage
  return followed by a line feed is one line break.
\<close>

fun splitlines_from :: "string \<Rightarrow> string \<Rightarrow> string list" where
  "splitlines_from l [] = (if l = [] then [] else [rev l])"
| "splitlines_from l [c] = (if linebreak c then [rev l] else [rev (c # l)])"
| "splitlines_from l (c # d # cs) =
     (if linebreak c then
        (if c = CHR 0x0D \<and> d = CHR 0x0A then rev l # splitlines_from [] cs
         else rev l # splitlines_from [] (d # cs))
      else splitlines_from (c # l) (d # cs))"

definition splitlines :: "string \<Rightarrow> string list" where
  "splitlines t = splitlines_from [] t"

text \<open>\<open>str.split()\<close> with no argument: the maximal runs of non-whitespace.\<close>

fun split_from :: "string \<Rightarrow> string \<Rightarrow> string list" where
  "split_from t [] = (if t = [] then [] else [rev t])"
| "split_from t (c # cs) =
     (if isspace c then (if t = [] then split_from [] cs else rev t # split_from [] cs)
      else split_from (c # t) cs)"

definition split :: "string \<Rightarrow> string list" where
  "split t = split_from [] t"

definition startswith :: "string \<Rightarrow> string \<Rightarrow> bool" where
  "startswith t p = prefix p t"

text \<open>\<open>sep.join(xs)\<close>.\<close>

fun join :: "string \<Rightarrow> string list \<Rightarrow> string" where
  "join sep [] = []"
| "join sep [x] = x"
| "join sep (x # y # ys) = x @ sep @ join sep (y # ys)"

section \<open>Configuration\<close>

definition CNAME_1_HOST :: string where "CNAME_1_HOST = ''abcd1234''"
definition CNAME_1_TARGET :: string where "CNAME_1_TARGET = ''gv-xxxxxxx.dv.googlehosted.com''"
definition WWW_TARGET :: string where "WWW_TARGET = ''ghs.google.com''"
definition BLOG_SUBDOMAIN :: string where "BLOG_SUBDOMAIN = ''blog''"
definition BLOGSPOT_DOMAIN :: string where "BLOGSPOT_DOMAIN = ''example.blogspot.com''"
definition CUSTOM_DOMAIN :: string where "CUSTOM_DOMAIN = ''example.com''"

definition RESOLVERS :: "string list" where
  "RESOLVERS = [''8.8.8.8'', ''1.1.1.1'', ''9.9.9.9'']"
definition VERSION :: string where "VERSION = ''4.4''"
definition TEST_HOST :: string where "TEST_HOST = ''www.google.com''"

definition BLOGGER_IPS :: "string list" where
  "BLOGGER_IPS = [''216.239.32.21'', ''216.239.34.21'', ''216.239.36.21'', ''216.239.38.21'']"
definition FORWARD_IPS :: "string list" where
  "FORWARD_IPS = [''198.49.23.144'', ''198.49.23.145'', ''198.185.159.144'', ''198.185.159.145'']"

section \<open>The process and its surroundings\<close>

text \<open>
  What the script writes to its standard output. A message keeps the values an f-string
  interpolates: text (\<open>Lit\<close>), an integer (\<open>Num\<close>) and a list of strings, which Python
  prints with \<open>repr\<close> (\<open>ListRepr\<close>). Colour codes are left out, and the non-ASCII glyphs
  of the messages are written in ASCII or, for the symbol in front of a line, left out.
  \<open>Status ok m\<close> is a line of \<open>print_status\<close>, \<open>Warning m\<close> one of \<open>print_warning\<close>,
  \<open>Plain m\<close> one of \<open>print\<close>, and \<open>Passthrough t\<close> the output a child process writes to
  the console itself.
\<close>

datatype piece = Lit string | Num int | ListRepr "string list"

type_synonym msg = "piece list"

datatype line = Status bool msg | Warning msg | Plain msg | Passthrough string

text \<open>
  The globals \<open>exit_code\<close> and \<open>last_headers\<close>, the lines printed so far, and the argument
  vectors of the child processes started so far.
\<close>

record state =
  exit_code :: int
  last_headers :: "string list"
  stdout :: "line list"
  invoked :: "string list list"

definition init :: state where
  "init = \<lparr>exit_code = 0, last_headers = [], stdout = [], invoked = []\<rparr>"

text \<open>
  The surroundings of a run. \<open>which w name\<close> is whether \<open>shutil.which\<close> finds the tool.
  \<open>spawn w n argv\<close> is what happens when the \<open>n\<close>-th child process of the run is started
  with \<open>argv\<close>: the executable is not found, or it exits with a return code after
  writing a text to its standard output. The answer may differ from one start to the
  next, as that of a resolver may.
\<close>

datatype completed = NotFound | Exited int string

record env =
  which :: "string \<Rightarrow> bool"
  spawn :: "nat \<Rightarrow> string list \<Rightarrow> completed"

datatype exc = SystemExit int | IndexError | OSError

type_synonym 'a prog = "state \<Rightarrow> (exc + 'a) \<times> state"

definition ret :: "'a \<Rightarrow> 'a prog" where
  "ret x s = (Inr x, s)"

definition raise :: "exc \<Rightarrow> 'a prog" where
  "raise e s = (Inl e, s)"

definition bnd :: "'a prog \<Rightarrow> ('a \<Rightarrow> 'b prog) \<Rightarrow> 'b prog" where
  "bnd m f s = (case m s of (Inl e, s') \<Rightarrow> (Inl e, s') | (Inr x, s') \<Rightarrow> f x s')"

definition seq :: "'a prog \<Rightarrow> 'b prog \<Rightarrow> 'b prog" where
  "seq m n = bnd m (\<lambda>_. n)"

definition if_stmt :: "bool \<Rightarrow> unit prog \<Rightarrow> unit prog" where
  "if_stmt b m = (if b then m else ret ())"

fun block :: "unit prog list \<Rightarrow> unit prog" where
  "block [] = ret ()"
| "block (m # ms) = seq m (block ms)"

fun for_each :: "('a \<Rightarrow> unit prog) \<Rightarrow> 'a list \<Rightarrow> unit prog" where
  "for_each body [] = ret ()"
| "for_each body (x # xs) = seq (body x) (for_each body xs)"

text \<open>
  An expression that reads no global and starts no process is a value of \<open>exc + 'a\<close>;
  \<open>lift\<close> runs it as a statement. \<open>subscript xs i\<close> is \<open>xs[i]\<close> for an index that is not
  negative.
\<close>

definition lift :: "exc + 'a \<Rightarrow> 'a prog" where
  "lift r s = (r, s)"

definition and_then :: "exc + 'a \<Rightarrow> ('a \<Rightarrow> exc + 'b) \<Rightarrow> exc + 'b" where
  "and_then r f = (case r of Inl e \<Rightarrow> Inl e | Inr x \<Rightarrow> f x)"

definition subscript :: "'a list \<Rightarrow> nat \<Rightarrow> exc + 'a" where
  "subscript xs i = (if i < length xs then Inr (xs ! i) else Inl IndexError)"

text \<open>
  The exit status of the process: the argument of \<open>sys.exit\<close>, or 1 when an exception
  reaches the top level.
\<close>

fun exit_status :: "exc + unit \<Rightarrow> int" where
  "exit_status (Inl (SystemExit c)) = c"
| "exit_status (Inl _) = 1"
| "exit_status (Inr _) = 0"

section \<open>The script\<close>

definition print :: "line \<Rightarrow> unit prog" where
  "print l s = (Inr (), s\<lparr>stdout := stdout s @ [l]\<rparr>)"

definition print_status :: "bool \<Rightarrow> msg \<Rightarrow> bool prog" where
  "print_status ok m = seq (print (Status ok m)) (ret (\<not> ok))"

definition print_warning :: "msg \<Rightarrow> unit prog" where
  "print_warning m = print (Warning m)"

text \<open>\<open>exit_code |= m\<close>, for a call \<open>m\<close> that returns a \<open>bool\<close>.\<close>

definition accumulate :: "bool prog \<Rightarrow> unit prog" where
  "accumulate m = bnd m (\<lambda>f s. (Inr (), s\<lparr>exit_code := exit_code s OR of_bool f\<rparr>))"

definition sys_exit :: "unit prog" where
  "sys_exit s = (Inl (SystemExit (exit_code s)), s)"

text \<open>
  \<open>run\<close>: \<open>check_output\<close> raises when the executable is missing or returns a code other
  than 0, and \<open>run\<close> turns every exception into the empty string. With \<open>text=True\<close> the
  output is read as text before it is stripped.
\<close>

definition run_output :: "env \<Rightarrow> nat \<Rightarrow> string list \<Rightarrow> string" where
  "run_output w n cmd =
     (case spawn w n cmd of
        NotFound \<Rightarrow> []
      | Exited rc out \<Rightarrow> if rc = 0 then strip (universal_newlines out) else [])"

definition run :: "env \<Rightarrow> string list \<Rightarrow> string prog" where
  "run w cmd s = (Inr (run_output w (length (invoked s)) cmd), s\<lparr>invoked := invoked s @ [cmd]\<rparr>)"

definition dig_args :: "string \<Rightarrow> string \<Rightarrow> string option \<Rightarrow> string list" where
  "dig_args name rtype resolver =
     (let args = [''dig'', ''+short'', ''-t'', rtype, name]
      in case resolver of
           None \<Rightarrow> args
         | Some r \<Rightarrow> if r \<noteq> [] then args @ [''@'' @ r] else args)"

definition dig :: "env \<Rightarrow> string \<Rightarrow> string \<Rightarrow> string option \<Rightarrow> string list prog" where
  "dig w name rtype resolver =
     bnd (run w (dig_args name rtype resolver)) (\<lambda>out. ret (splitlines out))"

text \<open>
  \<open>subprocess.call\<close>: raises \<open>OSError\<close> when the executable is missing, and returns the
  return code otherwise. \<open>quiet\<close> is \<open>stdout=DEVNULL\<close>; without it the child writes to the
  console.
\<close>

definition call :: "env \<Rightarrow> bool \<Rightarrow> string list \<Rightarrow> int prog" where
  "call w quiet cmd s =
     (let s' = s\<lparr>invoked := invoked s @ [cmd]\<rparr>
      in case spawn w (length (invoked s)) cmd of
           NotFound \<Rightarrow> (Inl OSError, s')
         | Exited rc out \<Rightarrow>
             if quiet then (Inr rc, s') else seq (print (Passthrough out)) (ret rc) s')"

definition ping :: "env \<Rightarrow> string \<Rightarrow> bool prog" where
  "ping w ip = bnd (call w True [''ping'', ''-c1'', ''-W1'', ip]) (\<lambda>rc. ret (rc = 0))"

definition curl_status :: "env \<Rightarrow> string \<Rightarrow> string prog" where
  "curl_status w url = run w [''curl'', ''-s'', ''-o'', ''/dev/null'', ''-w'', ''%{http_code}'', url]"

definition curl_headers :: "env \<Rightarrow> string \<Rightarrow> string list prog" where
  "curl_headers w url =
     bnd (run w [''curl'', ''-sI'', ''--max-time'', ''5'', url]) (\<lambda>out. ret (splitlines out))"

definition self_test :: "env \<Rightarrow> unit prog" where
  "self_test w = block [
     print (Plain [Lit (CHR 0x0A # ''===== blog-check.py v'' @ VERSION @ '' -- Self-Test ====='')]),
     if_stmt (\<not> which w ''dig'') (block [
       accumulate (print_status False [Lit ''dig missing'']),
       sys_exit]),
     bnd (bnd (dig w TEST_HOST ''A'' None) (\<lambda>found.
            if found \<noteq> [] then bnd (dig w TEST_HOST ''A'' None) (\<lambda>again. lift (subscript again 0))
            else ret [])) (\<lambda>ip. block [
       accumulate (print_status (ip \<noteq> []) [Lit (''DNS resolves '' @ TEST_HOST @ '' -> '' @ ip)]),
       bnd (if ip = [] then ret True else bnd (ping w ip) (\<lambda>ok. ret (\<not> ok))) (\<lambda>failed.
         if_stmt failed (block [
           accumulate (print_status False [Lit ''ping failed'']),
           sys_exit])),
       seq (print_status True [Lit ''ping OK'']) (ret ()),
       bnd (curl_status w (''https://'' @ TEST_HOST)) (\<lambda>status. block [
         if_stmt (status \<noteq> ''200'') (block [
           accumulate (print_status False [Lit (''HTTPS status '' @ status)]),
           sys_exit]),
         seq (print_status True [Lit ''HTTPS OK'']) (ret ()),
         print (Plain [Lit ''Self-tests passed''])])])]"

text \<open>
  \<open>re.search(re.escape(CUSTOM_DOMAIN) + "$", n)\<close>: the escaped domain matches itself
  only, and \<open>$\<close> matches at the end of the string and before a newline that ends it.
\<close>

definition glue_match :: "string \<Rightarrow> bool" where
  "glue_match n = (suffix CUSTOM_DOMAIN n \<or> suffix (CUSTOM_DOMAIN @ [CHR 0x0A]) n)"

definition nameserver_sanity :: "env \<Rightarrow> string list prog" where
  "nameserver_sanity w =
     seq (print (Plain [Lit (CHR 0x0A # ''===== Nameserver Sanity ====='')])) (
     bnd (dig w CUSTOM_DOMAIN ''NS'' None) (\<lambda>ns.
       let glue = list_ex glue_match ns
       in seq (if glue then print_warning [Lit ''Glue-style NS detected: '', ListRepr ns]
               else seq (print_status True [Lit ''Nameservers correct'']) (ret ()))
              (ret ns)))"

text \<open>\<open>(xs or [''])[0]\<close>\<close>

definition first_or_empty :: "string list \<Rightarrow> string" where
  "first_or_empty xs = (case xs of [] \<Rightarrow> [] | x # _ \<Rightarrow> x)"

text \<open>
  \<open>sum((dig(fqdn, 'CNAME', r) or [''])[0] == target for r in rs)\<close>: one lookup for each
  resolver, in order.
\<close>

fun count_matching :: "env \<Rightarrow> string \<Rightarrow> string \<Rightarrow> string list \<Rightarrow> int prog" where
  "count_matching w fqdn target [] = ret 0"
| "count_matching w fqdn target (r # rs) =
     bnd (dig w fqdn ''CNAME'' (Some r)) (\<lambda>answer.
     bnd (count_matching w fqdn target rs) (\<lambda>n.
       ret (of_bool (first_or_empty answer = target) + n)))"

text \<open>The body of the loop of \<open>dns_audit\<close>, for one pair of host and expected target.\<close>

definition audit_host :: "env \<Rightarrow> string list \<Rightarrow> string \<times> string \<Rightarrow> unit prog" where
  "audit_host w ns_list = (\<lambda>(host, expected).
     let fqdn = host @ ''.'' @ CUSTOM_DOMAIN
     in seq (print (Plain [Lit (CHR 0x0A # ''-- '' @ fqdn @ '' --'')])) (
        bnd (dig w fqdn ''CNAME'' None) (\<lambda>cname.
          case cname of
            [] \<Rightarrow> accumulate (print_status False
                    [Lit (''Missing CNAME -- expected '' @ host @ ''->'' @ expected)])
          | cname0 # _ \<Rightarrow> block [
              print (Plain [Lit (''CNAME -> '' @ cname0)]),
              if_stmt (host = CNAME_1_HOST) (
                bnd (dig w fqdn ''A'' None) (\<lambda>a.
                  if a \<noteq> [] then
                    print_warning [Lit ''Verification CNAME resolves to A-record -- NXDOMAIN expected'']
                  else seq (print_status True [Lit ''Verification CNAME NXDOMAIN on A lookup''])
                           (ret ()))),
              bnd (count_matching w fqdn cname0 RESOLVERS) (\<lambda>pub.
              bnd (count_matching w fqdn cname0 ns_list) (\<lambda>auth.
                print (Plain [Lit ''Propagation -> public '', Num pub, Lit ''/'',
                              Num (int (length RESOLVERS)), Lit '' | authoritative '',
                              Num auth, Lit ''/'', Num (int (length ns_list))])))])))"

definition dns_audit :: "env \<Rightarrow> string list \<Rightarrow> unit prog" where
  "dns_audit w ns_list =
     seq (print (Plain [Lit (CHR 0x0A # ''===== DNS Audit ====='')])) (
     for_each (audit_host w ns_list)
       [(''www'', WWW_TARGET), (BLOG_SUBDOMAIN, BLOGSPOT_DOMAIN), (CNAME_1_HOST, CNAME_1_TARGET)])"

definition root_a_record_check :: "env \<Rightarrow> string prog" where
  "root_a_record_check w =
     seq (print (Plain [Lit (CHR 0x0A # ''===== Root A-record Presence & Forwarding ====='')])) (
     bnd (dig w CUSTOM_DOMAIN ''A'' None) (\<lambda>root_ips.
       if list_all (\<lambda>ip. ip \<in> set root_ips) BLOGGER_IPS then
         seq (print_status True [Lit ''All Blogger A-records present'']) (ret ''blogger'')
       else if list_all (\<lambda>ip. ip \<in> set root_ips) FORWARD_IPS then
         seq (print_warning
                [Lit ''Registrar DNS-forwarding detected -- recommend switching to Blogger A-records''])
        (seq (print_status True [Lit ''Registrar DNS-forwarding -- redirect handled externally''])
             (ret ''registrar''))
       else
         seq (accumulate (print_status False [Lit ''A-record misconfigured -- found '', ListRepr root_ips]))
             (ret ''invalid'')))"

text \<open>
  \<open>next((l.split()[1] for l in headers if l.startswith('Location:')), '')\<close>: the generator
  is asked for one element only, so it stops at the first line that starts with
  \<open>Location:\<close>.
\<close>

fun first_location :: "string list \<Rightarrow> exc + string" where
  "first_location [] = Inr []"
| "first_location (l # ls) =
     (if startswith l ''Location:'' then subscript (split l) 1 else first_location ls)"

text \<open>\<open>headers[0].split()[1] if headers else ''\<close>\<close>

definition status_code :: "string list \<Rightarrow> exc + string" where
  "status_code h =
     (if h \<noteq> [] then and_then (subscript h 0) (\<lambda>l. subscript (split l) 1) else Inr [])"

definition set_last_headers :: "string list \<Rightarrow> unit prog" where
  "set_last_headers h s = (Inr (), s\<lparr>last_headers := h\<rparr>)"

definition redirect_check :: "env \<Rightarrow> string \<Rightarrow> unit prog" where
  "redirect_check w mode =
     if_stmt (mode = ''blogger'') (
       bnd (curl_headers w (''https://'' @ CUSTOM_DOMAIN)) (\<lambda>h.
       seq (set_last_headers h) (
       bnd (lift (status_code h)) (\<lambda>status.
       bnd (lift (first_location h)) (\<lambda>location.
         accumulate (print_status
           (status = ''301'' \<and> location = ''https://www.'' @ CUSTOM_DOMAIN @ ''/'')
           [Lit ''HTTP 301 -> www'']))))))"

definition https_status :: "env \<Rightarrow> unit prog" where
  "https_status w = block [
     print (Plain [Lit (CHR 0x0A # ''===== Blogger HTTPS Status ====='')]),
     bnd (curl_status w (''https://www.'' @ CUSTOM_DOMAIN)) (\<lambda>c.
       accumulate (print_status (c = ''200'') [Lit ''HTTPS enabled''])),
     bnd (curl_status w (''http://www.'' @ CUSTOM_DOMAIN)) (\<lambda>c.
       accumulate (print_status (c = ''301'') [Lit ''HTTP->HTTPS redirect enabled'']))]"

definition advanced_diagnostics :: "env \<Rightarrow> unit prog" where
  "advanced_diagnostics w = block [
     if_stmt (which w ''traceroute'') (block [
       print (Plain [Lit (CHR 0x0A # ''===== ADVANCED: Traceroute ====='')]),
       seq (call w False [''traceroute'', ''-m4'', CUSTOM_DOMAIN]) (ret ())]),
     if_stmt (which w ''subfinder'') (block [
       print (Plain [Lit (CHR 0x0A # ''===== ADVANCED: Subdomain Enumeration ====='')]),
       seq (call w False [''subfinder'', ''-silent'', ''-d'', CUSTOM_DOMAIN]) (ret ())])]"

definition debug_info :: "env \<Rightarrow> unit prog" where
  "debug_info w = block [
     print (Plain [Lit (CHR 0x0A # ''===== DEBUG ====='')]),
     seq (call w False [''dig'', ''+trace'', CUSTOM_DOMAIN]) (ret ()),
     (\<lambda>s. if_stmt (last_headers s \<noteq> []) (print (Plain [Lit (join [CHR 0x0A] (last_headers s))])) s)]"

text \<open>The two flags of the command line, as \<open>argparse\<close> returns them.\<close>

record args =
  advanced :: bool
  debug :: bool

definition main :: "env \<Rightarrow> args \<Rightarrow> unit prog" where
  "main w a =
     seq (self_test w) (
     bnd (nameserver_sanity w) (\<lambda>ns_list.
     seq (dns_audit w ns_list) (
     bnd (root_a_record_check w) (\<lambda>mode. block [
       redirect_check w mode,
       https_status w,
       if_stmt (advanced a) (advanced_diagnostics w),
       if_stmt (debug a) (debug_info w),
       sys_exit]))))"

section \<open>Vocabulary of the properties\<close>

text \<open>
  \<open>answer w n name rtype resolver\<close> is the list \<open>dig\<close> returns when its lookup is the
  \<open>n\<close>-th child process of the run.
\<close>

definition answer :: "env \<Rightarrow> nat \<Rightarrow> string \<Rightarrow> string \<Rightarrow> string option \<Rightarrow> string list" where
  "answer w n name rtype resolver = splitlines (run_output w n (dig_args name rtype resolver))"

text \<open>
  The command line that asks the resolver \<open>r\<close> for the CNAME of \<open>fqdn\<close>: the resolver is
  named by the last argument, \<open>@\<close> followed by \<open>r\<close>. A resolver whose name is the empty
  string is not named, and the lookup goes to the local resolver.
\<close>

definition cname_query :: "string \<Rightarrow> string \<Rightarrow> string list" where
  "cname_query fqdn r =
     (if r = [] then [''dig'', ''+short'', ''-t'', ''CNAME'', fqdn]
      else [''dig'', ''+short'', ''-t'', ''CNAME'', fqdn, ''@'' @ r])"

text \<open>
  The answers of the resolvers \<open>rs\<close> about \<open>fqdn\<close>, each asked by its own command line, one
  after the other, the first of them by the \<open>n\<close>-th child process.
\<close>

fun answers :: "env \<Rightarrow> nat \<Rightarrow> string \<Rightarrow> string list \<Rightarrow> string list list" where
  "answers w n fqdn [] = []"
| "answers w n fqdn (r # rs) =
     splitlines (run_output w n (cname_query fqdn r)) # answers w (Suc n) fqdn rs"

text \<open>
  A resolver's answer matches when its first entry is the given one; an answer with no
  entry does not match.
\<close>

definition matches :: "string \<Rightarrow> string list \<Rightarrow> bool" where
  "matches target a = (case a of [] \<Rightarrow> False | x # _ \<Rightarrow> x = target)"

definition is_failure :: "line \<Rightarrow> bool" where
  "is_failure l = (case l of Status ok _ \<Rightarrow> \<not> ok | _ \<Rightarrow> False)"

definition failure_reported :: "state \<Rightarrow> bool" where
  "failure_reported s = list_ex is_failure (stdout s)"

text \<open>A world in which the tools are installed and every child process prints \<open>t\<close>.\<close>

definition always :: "string \<Rightarrow> env" where
  "always t = \<lparr>which = (\<lambda>_. True), spawn = (\<lambda>_ _. Exited 0 t)\<rparr>"

text \<open>The same, except that the \<open>k\<close>-th child process prints nothing.\<close>

definition flaky :: "nat \<Rightarrow> string \<Rightarrow> env" where
  "flaky k t = \<lparr>which = (\<lambda>_. True), spawn = (\<lambda>n _. if n = k then Exited 0 [] else Exited 0 t)\<rparr>"


text \<open>
  A statement only ever ORs the flag 1 into \<open>exit_code\<close>, which therefore never
  decreases.
\<close>

definition grows_by_or :: "'a prog \<Rightarrow> bool" where
  "grows_by_or m =
     (\<forall>s. (exit_code (snd (m s)) = exit_code s \<or> exit_code (snd (m s)) = exit_code s OR 1)
          \<and> exit_code s \<le> exit_code (snd (m s)))"

text \<open>
  A world in which only \<open>dig\<close> of the optional tools is found and every check passes,
  except that the verification host also resolves to an address, which is worth a
  warning.
\<close>

definition healthy_spawn :: "string list \<Rightarrow> completed" where
  "healthy_spawn cmd =
    (if cmd = dig_args TEST_HOST ''A'' None then Exited 0 (''142.250.74.68'' @ [CHR 0x0A])
     else if take 1 cmd = [''ping''] then Exited 0 []
     else if cmd = dig_args CUSTOM_DOMAIN ''NS'' None
       then Exited 0 (''ns1.dns.net.'' @ [CHR 0x0A] @ ''ns2.dns.net.'' @ [CHR 0x0A])
     else if cmd = dig_args CUSTOM_DOMAIN ''A'' None
       then Exited 0 (join [CHR 0x0A] BLOGGER_IPS @ [CHR 0x0A])
     else if take 4 cmd = [''dig'', ''+short'', ''-t'', ''CNAME'']
       then Exited 0 (''ghs.google.com.'' @ [CHR 0x0A])
     else if take 1 cmd = [''dig''] then Exited 0 (''203.0.113.7'' @ [CHR 0x0A])
     else if take 2 cmd = [''curl'', ''-sI'']
       then Exited 0 (''HTTP/1.1 301 Moved Permanently'' @ [CHR 0x0D, CHR 0x0A]
              @ ''Location: https://www.example.com/'' @ [CHR 0x0D, CHR 0x0A, CHR 0x0D, CHR 0x0A])
     else if take 1 cmd = [''curl''] \<and> drop 6 cmd = [''http://www.example.com''] then Exited 0 ''301''
     else if take 1 cmd = [''curl''] then Exited 0 ''200''
     else NotFound)"

definition healthy :: env where
  "healthy = \<lparr>which = (\<lambda>name. name = ''dig''), spawn = (\<lambda>_. healthy_spawn)\<rparr>"

text \<open>
  \<open>keeps I E m\<close>: the statement \<open>m\<close> preserves the property \<open>I\<close> of the state, and an
  exception it raises satisfies \<open>E\<close> in the state it leaves. \<open>stable I E\<close> collects what
  the elementary statements need for that.
\<close>

definition keeps :: "(state \<Rightarrow> bool) \<Rightarrow> (exc \<Rightarrow> state \<Rightarrow> bool) \<Rightarrow> 'a prog \<Rightarrow> bool" where
  "keeps I E m = (\<forall>s. I s \<longrightarrow> I (snd (m s)) \<and> (\<forall>e. fst (m s) = Inl e \<longrightarrow> E e (snd (m s))))"

definition stable :: "(state \<Rightarrow> bool) \<Rightarrow> (exc \<Rightarrow> state \<Rightarrow> bool) \<Rightarrow> bool" where
  "stable I E =
     ((\<forall>s x. I s \<longrightarrow> I (s\<lparr>invoked := x\<rparr>))
    \<and> (\<forall>s x. I s \<longrightarrow> I (s\<lparr>last_headers := x\<rparr>))
    \<and> (\<forall>s l. I s \<longrightarrow> \<not> is_failure l \<longrightarrow> I (s\<lparr>stdout := stdout s @ [l]\<rparr>))
    \<and> (\<forall>s ok m. I s \<longrightarrow> I (s\<lparr>stdout := stdout s @ [Status ok m],
                                   exit_code := exit_code s OR of_bool (\<not> ok)\<rparr>))
    \<and> (\<forall>s. I s \<longrightarrow> E (SystemExit (exit_code s)) s \<and> E IndexError s \<and> E OSError s))"

section \<open>Running the statements\<close>

lemmas prog_defs = ret_def raise_def bnd_def seq_def if_stmt_def lift_def print_def
  print_status_def print_warning_def accumulate_def sys_exit_def set_last_headers_def

lemma init_simps:
  "exit_code init = 0" "last_headers init = []" "stdout init = []" "invoked init = []"
  by (simp_all add: init_def)

lemma or_one_nonzero: "(x::int) OR 1 \<noteq> 0"
  by (simp add: or_eq_0_iff)

lemma dig_eq:
  "dig w name rtype res s =
     (Inr (answer w (length (invoked s)) name rtype res),
      s\<lparr>invoked := invoked s @ [dig_args name rtype res]\<rparr>)"
  by (simp add: dig_def answer_def run_def bnd_def ret_def)

lemma curl_headers_eq:
  "curl_headers w url s =
     (Inr (splitlines (run_output w (length (invoked s)) [''curl'', ''-sI'', ''--max-time'', ''5'', url])),
      s\<lparr>invoked := invoked s @ [[''curl'', ''-sI'', ''--max-time'', ''5'', url]]\<rparr>)"
  by (simp add: curl_headers_def run_def bnd_def ret_def)

section \<open>Root A-record check\<close>

lemma root_a_record_check_eq:
  "root_a_record_check w s =
    (let root_ips = answer w (length (invoked s)) CUSTOM_DOMAIN ''A'' None;
         hdr = Plain [Lit (CHR 0x0A # ''===== Root A-record Presence & Forwarding ====='')];
         s1 = s\<lparr>invoked := invoked s @ [dig_args CUSTOM_DOMAIN ''A'' None]\<rparr>
     in if set BLOGGER_IPS \<subseteq> set root_ips then
          (Inr ''blogger'',
           s1\<lparr>stdout := stdout s @ [hdr, Status True [Lit ''All Blogger A-records present'']]\<rparr>)
        else if set FORWARD_IPS \<subseteq> set root_ips then
          (Inr ''registrar'', s1\<lparr>stdout := stdout s @ [hdr,
             Warning [Lit ''Registrar DNS-forwarding detected -- recommend switching to Blogger A-records''],
             Status True [Lit ''Registrar DNS-forwarding -- redirect handled externally'']]\<rparr>)
        else
          (Inr ''invalid'', s1\<lparr>stdout := stdout s @ [hdr,
             Status False [Lit ''A-record misconfigured -- found '', ListRepr root_ips]],
             exit_code := exit_code s OR 1\<rparr>))"
  by (simp add: root_a_record_check_def prog_defs dig_eq list_all_iff subset_eq Let_def)

text \<open>
  C2. \<open>root_a_record_check\<close> never raises and returns one of the three modes, decided by
  the list of root A records it fetched: \<open>blogger\<close> with a success line when the list
  holds all four Blogger addresses (whatever else it holds); otherwise \<open>registrar\<close> with a
  warning and a success line when it holds all four forwarding addresses; otherwise
  \<open>invalid\<close> with a failure line that names the list. Only the last case changes the
  exit code, which it makes nonzero.
\<close>

theorem root_a_record_check_classifies:
  assumes "root_ips = answer w (length (invoked s)) CUSTOM_DOMAIN ''A'' None"
    and "root_a_record_check w s = (r, s')"
  shows "(r = Inr ''blogger'' \<or> r = Inr ''registrar'' \<or> r = Inr ''invalid'')
    \<and> (set BLOGGER_IPS \<subseteq> set root_ips \<longrightarrow>
          r = Inr ''blogger'' \<and> exit_code s' = exit_code s
          \<and> (\<exists>h m. stdout s' = stdout s @ [Plain h, Status True m]))
    \<and> (\<not> set BLOGGER_IPS \<subseteq> set root_ips \<and> set FORWARD_IPS \<subseteq> set root_ips \<longrightarrow>
          r = Inr ''registrar'' \<and> exit_code s' = exit_code s
          \<and> (\<exists>h m m'. stdout s' = stdout s @ [Plain h, Warning m, Status True m']))
    \<and> (\<not> set BLOGGER_IPS \<subseteq> set root_ips \<and> \<not> set FORWARD_IPS \<subseteq> set root_ips \<longrightarrow>
          r = Inr ''invalid'' \<and> exit_code s' = exit_code s OR 1 \<and> exit_code s' \<noteq> 0
          \<and> (\<exists>h. stdout s' = stdout s @
                [Plain h, Status False [Lit ''A-record misconfigured -- found '', ListRepr root_ips]]))"
  using assms or_one_nonzero [of "exit_code s"]
  by (auto simp: root_a_record_check_eq Let_def split: if_splits)

text \<open>
  The three cases at work: the four Blogger addresses after another record, the four
  forwarding addresses, and three of the four Blogger addresses.
\<close>

theorem root_a_record_check_classifies_witness:
  "set BLOGGER_IPS \<subseteq> set (answer (always (join [CHR 0x0A] (''10.0.0.1'' # BLOGGER_IPS))) 0 CUSTOM_DOMAIN ''A'' None)
   \<and> fst (root_a_record_check (always (join [CHR 0x0A] (''10.0.0.1'' # BLOGGER_IPS))) init) = Inr ''blogger''
   \<and> \<not> set BLOGGER_IPS \<subseteq> set (answer (always (join [CHR 0x0A] FORWARD_IPS)) 0 CUSTOM_DOMAIN ''A'' None)
   \<and> set FORWARD_IPS \<subseteq> set (answer (always (join [CHR 0x0A] FORWARD_IPS)) 0 CUSTOM_DOMAIN ''A'' None)
   \<and> fst (root_a_record_check (always (join [CHR 0x0A] FORWARD_IPS)) init) = Inr ''registrar''
   \<and> \<not> set BLOGGER_IPS \<subseteq> set (answer (always (join [CHR 0x0A] (tl BLOGGER_IPS))) 0 CUSTOM_DOMAIN ''A'' None)
   \<and> \<not> set FORWARD_IPS \<subseteq> set (answer (always (join [CHR 0x0A] (tl BLOGGER_IPS))) 0 CUSTOM_DOMAIN ''A'' None)
   \<and> fst (root_a_record_check (always (join [CHR 0x0A] (tl BLOGGER_IPS))) init) = Inr ''invalid''
   \<and> exit_code (snd (root_a_record_check (always (join [CHR 0x0A] (tl BLOGGER_IPS))) init)) = 1"
proof -
  have b: "set BLOGGER_IPS \<subseteq> set (answer (always (join [CHR 0x0A] (''10.0.0.1'' # BLOGGER_IPS))) 0 CUSTOM_DOMAIN ''A'' None)"
    by code_simp
  have f: "\<not> set BLOGGER_IPS \<subseteq> set (answer (always (join [CHR 0x0A] FORWARD_IPS)) 0 CUSTOM_DOMAIN ''A'' None)"
    "set FORWARD_IPS \<subseteq> set (answer (always (join [CHR 0x0A] FORWARD_IPS)) 0 CUSTOM_DOMAIN ''A'' None)"
    by code_simp+
  have i: "\<not> set BLOGGER_IPS \<subseteq> set (answer (always (join [CHR 0x0A] (tl BLOGGER_IPS))) 0 CUSTOM_DOMAIN ''A'' None)"
    "\<not> set FORWARD_IPS \<subseteq> set (answer (always (join [CHR 0x0A] (tl BLOGGER_IPS))) 0 CUSTOM_DOMAIN ''A'' None)"
    by code_simp+
  show ?thesis
    using b f i
      root_a_record_check_classifies [OF refl surjective_pairing,
        of "always (join [CHR 0x0A] (''10.0.0.1'' # BLOGGER_IPS))" init]
      root_a_record_check_classifies [OF refl surjective_pairing,
        of "always (join [CHR 0x0A] FORWARD_IPS)" init]
      root_a_record_check_classifies [OF refl surjective_pairing,
        of "always (join [CHR 0x0A] (tl BLOGGER_IPS))" init]
    by (simp add: init_simps)
qed

section \<open>Redirect check\<close>

lemma redirect_check_eq:
  "redirect_check w ''blogger'' s =
    (let cmd = [''curl'', ''-sI'', ''--max-time'', ''5'', ''https://'' @ CUSTOM_DOMAIN];
         h = splitlines (run_output w (length (invoked s)) cmd);
         s1 = s\<lparr>invoked := invoked s @ [cmd], last_headers := h\<rparr>
     in case status_code h of
          Inl e \<Rightarrow> (Inl e, s1)
        | Inr status \<Rightarrow>
           (case first_location h of
              Inl e \<Rightarrow> (Inl e, s1)
            | Inr location \<Rightarrow>
               (let ok = (status = ''301'' \<and> location = ''https://www.'' @ CUSTOM_DOMAIN @ ''/'')
                in (Inr (), s1\<lparr>stdout := stdout s @ [Status ok [Lit ''HTTP 301 -> www'']],
                                 exit_code := exit_code s OR of_bool (\<not> ok)\<rparr>))))"
  by (simp add: redirect_check_def prog_defs curl_headers_eq Let_def split: sum.splits)

text \<open>
  C5. For every mode other than \<open>blogger\<close>, so for \<open>registrar\<close> and \<open>invalid\<close>,
  \<open>redirect_check\<close> returns with the state as it was: no process started, nothing
  printed, \<open>exit_code\<close> and \<open>last_headers\<close> untouched. For \<open>blogger\<close> it starts exactly one
  process, the header fetch of the root domain.
\<close>

theorem redirect_check_only_for_blogger:
  "(mode \<noteq> ''blogger'' \<longrightarrow> redirect_check w mode s = (Inr (), s))
   \<and> redirect_check w ''registrar'' s = (Inr (), s)
   \<and> redirect_check w ''invalid'' s = (Inr (), s)
   \<and> invoked (snd (redirect_check w ''blogger'' s)) =
        invoked s @ [[''curl'', ''-sI'', ''--max-time'', ''5'', ''https://'' @ CUSTOM_DOMAIN]]"
  by (simp add: redirect_check_eq Let_def split: sum.splits)
     (simp add: redirect_check_def if_stmt_def ret_def)

theorem redirect_check_only_for_blogger_witness:
  "''registrar'' \<noteq> ''blogger''
   \<and> redirect_check (always ''HTTP/1.1 200 OK'') ''registrar'' init = (Inr (), init)"
  using redirect_check_only_for_blogger [of "''registrar''" "always ''HTTP/1.1 200 OK''" init]
  by simp

section \<open>Lines of a tool's output\<close>

text \<open>
  What \<open>run\<close> returns has been stripped, and \<open>dig\<close> cuts it into lines: no line holds a
  line break, and the first line, when there is one, is not empty.
\<close>

lemma linebreak_isspace: "linebreak c \<Longrightarrow> isspace c"
  unfolding linebreak_def isspace_def by blast

lemma cr_linebreak: "linebreak (CHR 0x0D)"
  by (simp add: linebreak_def)

lemma splitlines_from_crlf:
  "splitlines_from l (CHR 0x0D # CHR 0x0A # cs) = rev l # splitlines_from [] cs"
  by (simp add: cr_linebreak)

lemma splitlines_from_break:
  "linebreak c \<Longrightarrow> \<not> (c = CHR 0x0D \<and> d = CHR 0x0A) \<Longrightarrow>
   splitlines_from l (c # d # cs) = rev l # splitlines_from [] (d # cs)"
  by auto

lemma splitlines_from_other:
  "\<not> linebreak c \<Longrightarrow> splitlines_from l (c # d # cs) = splitlines_from (c # l) (d # cs)"
  by simp

lemma splitlines_from_no_break:
  "x \<in> set (splitlines_from l t) \<Longrightarrow> \<forall>c\<in>set l. \<not> linebreak c \<Longrightarrow> \<forall>c\<in>set x. \<not> linebreak c"
proof (induction l t rule: splitlines_from.induct)
  case (1 l)
  then show ?case by (simp split: if_splits)
next
  case (2 l c)
  then show ?case by (simp split: if_splits)
next
  case (3 l c d cs)
  show ?case
  proof (cases "linebreak c")
    case True
    show ?thesis
    proof (cases "c = CHR 0x0D \<and> d = CHR 0x0A")
      case crlf: True
      from "3.prems"(1) crlf have "x \<in> set (rev l # splitlines_from [] cs)"
        by (simp only: splitlines_from_crlf)
      then have "x = rev l \<or> x \<in> set (splitlines_from [] cs)" by simp
      then show ?thesis
      proof
        assume "x = rev l"
        with "3.prems"(2) show ?thesis by simp
      next
        assume "x \<in> set (splitlines_from [] cs)"
        then show ?thesis using "3.IH"(1) [OF True crlf] by simp
      qed
    next
      case nocrlf: False
      from "3.prems"(1) have "x \<in> set (rev l # splitlines_from [] (d # cs))"
        by (simp only: splitlines_from_break [OF True nocrlf])
      then have "x = rev l \<or> x \<in> set (splitlines_from [] (d # cs))" by simp
      then show ?thesis
      proof
        assume "x = rev l"
        with "3.prems"(2) show ?thesis by simp
      next
        assume "x \<in> set (splitlines_from [] (d # cs))"
        then show ?thesis using "3.IH"(2) [OF True nocrlf] by simp
      qed
    qed
  next
    case False
    from "3.prems"(1) have "x \<in> set (splitlines_from (c # l) (d # cs))"
      by (simp only: splitlines_from_other [OF False])
    moreover from "3.prems"(2) False have "\<forall>a\<in>set (c # l). \<not> linebreak a" by simp
    ultimately show ?thesis using "3.IH"(3) [OF False] by blast
  qed
qed


lemma splitlines_no_break: "x \<in> set (splitlines t) \<Longrightarrow> c \<in> set x \<Longrightarrow> \<not> linebreak c"
  using splitlines_from_no_break [of x "[]" t] by (simp add: splitlines_def)

lemma splitlines_from_first: "splitlines_from l t = x # xs \<Longrightarrow> l \<noteq> [] \<Longrightarrow> x \<noteq> []"
proof (induction l t arbitrary: x xs rule: splitlines_from.induct)
  case (1 l)
  then show ?case by (auto split: if_splits)
next
  case (2 l c)
  then show ?case by (auto split: if_splits)
next
  case (3 l c d cs)
  show ?case
  proof (cases "linebreak c")
    case True
    have "hd (splitlines_from l (c # d # cs)) = rev l"
    proof (cases "c = CHR 0x0D \<and> d = CHR 0x0A")
      case crlf: True
      then show ?thesis by (simp only: splitlines_from_crlf list.sel)
    next
      case nocrlf: False
      show ?thesis by (simp only: splitlines_from_break [OF True nocrlf] list.sel)
    qed
    with "3.prems" show ?thesis by simp
  next
    case False
    from "3.prems"(1) have "splitlines_from (c # l) (d # cs) = x # xs"
      by (simp only: splitlines_from_other [OF False])
    then show ?thesis using "3.IH"(3) [OF False] by blast
  qed
qed

lemma strip_first: 
  assumes "strip t = c # r"
  shows "\<not> isspace c"
proof -
  let ?u = "dropWhile isspace t"
  have "rev ?u = takeWhile isspace (rev ?u) @ dropWhile isspace (rev ?u)" by simp
  then have "rev (rev ?u) = rev (takeWhile isspace (rev ?u) @ dropWhile isspace (rev ?u))"
    by (rule arg_cong)
  then have "?u = strip t @ rev (takeWhile isspace (rev ?u))"
    by (simp only: rev_rev_ident rev_append strip_def)
  with assms have u: "?u = c # (r @ rev (takeWhile isspace (rev ?u)))" by simp
  have "?u \<noteq> []"
  proof
    assume "?u = []"
    with u show False by (simp only: list.distinct)
  qed
  then have "\<not> isspace (hd ?u)" by (rule hd_dropWhile)
  moreover from u have "hd ?u = c" by (metis list.sel(1))
  ultimately show ?thesis by simp
qed


lemma splitlines_strip_first:
  assumes "splitlines (strip t) = x # xs"
  shows "x \<noteq> []"
proof (cases "strip t")
  case Nil
  with assms show ?thesis by (simp add: splitlines_def)
next
  case (Cons c r)
  then have nb: "\<not> linebreak c" using strip_first linebreak_isspace by blast
  show ?thesis
  proof (cases r)
    case Nil
    with assms Cons nb show ?thesis by (auto simp: splitlines_def)
  next
    case d: (Cons d cs)
    from assms Cons d have "splitlines_from [] (c # d # cs) = x # xs"
      by (simp add: splitlines_def)
    then have "splitlines_from [c] (d # cs) = x # xs"
      by (simp only: splitlines_from_other [OF nb])
    then show ?thesis by (rule splitlines_from_first) simp
  qed
qed

lemma run_output_strip: "\<exists>t. run_output w n cmd = strip t"
proof (cases "spawn w n cmd")
  case NotFound
  then have "run_output w n cmd = strip []" by (simp add: run_output_def strip_def)
  then show ?thesis ..
next
  case (Exited rc out)
  show ?thesis
  proof (cases "rc = 0")
    case True
    with Exited have "run_output w n cmd = strip (universal_newlines out)"
      by (simp add: run_output_def)
    then show ?thesis ..
  next
    case False
    with Exited have "run_output w n cmd = strip []" by (simp add: run_output_def strip_def)
    then show ?thesis ..
  qed
qed

lemma answer_first: "answer w n name rtype res = x # xs \<Longrightarrow> x \<noteq> []"
  using run_output_strip [of w n "dig_args name rtype res"] splitlines_strip_first
  unfolding answer_def by metis

lemma answer_no_break: "x \<in> set (answer w n name rtype res) \<Longrightarrow> c \<in> set x \<Longrightarrow> \<not> linebreak c"
  unfolding answer_def by (rule splitlines_no_break)

section \<open>Nameserver sanity\<close>

lemma glue_match_answer:
  assumes "x \<in> set (answer w n name rtype res)"
  shows "glue_match x = suffix CUSTOM_DOMAIN x"
proof -
  have "\<not> suffix (CUSTOM_DOMAIN @ [CHR 0x0A]) x"
  proof
    assume "suffix (CUSTOM_DOMAIN @ [CHR 0x0A]) x"
    then obtain p where "x = p @ CUSTOM_DOMAIN @ [CHR 0x0A]" by (auto simp: suffix_def)
    then have "CHR 0x0A \<in> set x" by simp
    with assms have "\<not> linebreak (CHR 0x0A)" by (rule answer_no_break)
    then show False by (simp add: linebreak_def)
  qed
  then show ?thesis by (simp add: glue_match_def)
qed

lemma nameserver_sanity_eq:
  "nameserver_sanity w s =
    (let ns = answer w (length (invoked s)) CUSTOM_DOMAIN ''NS'' None
     in (Inr ns, s\<lparr>invoked := invoked s @ [dig_args CUSTOM_DOMAIN ''NS'' None],
                    stdout := stdout s @ [Plain [Lit (CHR 0x0A # ''===== Nameserver Sanity ====='')],
                      if \<exists>n\<in>set ns. suffix CUSTOM_DOMAIN n
                      then Warning [Lit ''Glue-style NS detected: '', ListRepr ns]
                      else Status True [Lit ''Nameservers correct'']]\<rparr>))"
proof -
  have "list_ex glue_match (answer w (length (invoked s)) CUSTOM_DOMAIN ''NS'' None)
      = (\<exists>n\<in>set (answer w (length (invoked s)) CUSTOM_DOMAIN ''NS'' None). suffix CUSTOM_DOMAIN n)"
    unfolding list_ex_iff using glue_match_answer by blast
  then show ?thesis
    by (simp add: nameserver_sanity_def prog_defs dig_eq Let_def)
qed

text \<open>
  C8. \<open>nameserver_sanity\<close> returns the NS list it fetched and never raises. It prints a
  warning exactly when some name of the list ends with the configured domain, and a
  success line otherwise; for an empty list it prints the success line. It leaves
  \<open>exit_code\<close> as it was.
\<close>

theorem nameserver_sanity_glue:
  assumes "ns = answer w (length (invoked s)) CUSTOM_DOMAIN ''NS'' None"
    and "nameserver_sanity w s = (r, s')"
  shows "r = Inr ns \<and> exit_code s' = exit_code s
    \<and> ((\<exists>n\<in>set ns. suffix CUSTOM_DOMAIN n) \<longrightarrow>
          (\<exists>h. stdout s' = stdout s @ [Plain h, Warning [Lit ''Glue-style NS detected: '', ListRepr ns]]))
    \<and> (\<not> (\<exists>n\<in>set ns. suffix CUSTOM_DOMAIN n) \<longrightarrow>
          (\<exists>h. stdout s' = stdout s @ [Plain h, Status True [Lit ''Nameservers correct'']]))
    \<and> (ns = [] \<longrightarrow>
          (\<exists>h. stdout s' = stdout s @ [Plain h, Status True [Lit ''Nameservers correct'']]))"
  using assms by (auto simp: nameserver_sanity_eq Let_def)

theorem nameserver_sanity_glue_witness:
  "(\<exists>n\<in>set (answer (always ''ns1.example.com'') 0 CUSTOM_DOMAIN ''NS'' None). suffix CUSTOM_DOMAIN n)
   \<and> stdout (snd (nameserver_sanity (always ''ns1.example.com'') init)) =
       [Plain [Lit (CHR 0x0A # ''===== Nameserver Sanity ====='')],
        Warning [Lit ''Glue-style NS detected: '', ListRepr [''ns1.example.com'']]]
   \<and> answer (always []) 0 CUSTOM_DOMAIN ''NS'' None = []
   \<and> stdout (snd (nameserver_sanity (always []) init)) =
       [Plain [Lit (CHR 0x0A # ''===== Nameserver Sanity ====='')], Status True [Lit ''Nameservers correct'']]
   \<and> exit_code (snd (nameserver_sanity (always []) init)) = 0"
proof -
  have a: "answer (always ''ns1.example.com'') 0 CUSTOM_DOMAIN ''NS'' None = [''ns1.example.com'']"
    by code_simp
  have g: "suffix CUSTOM_DOMAIN ''ns1.example.com''"
    by code_simp
  have e: "answer (always []) 0 CUSTOM_DOMAIN ''NS'' None = []"
    by code_simp
  have h: "stdout (snd (nameserver_sanity (always ''ns1.example.com'') init)) ! 0 = Plain [Lit (CHR 0x0A # ''===== Nameserver Sanity ====='')]"
    "stdout (snd (nameserver_sanity (always []) init)) ! 0 = Plain [Lit (CHR 0x0A # ''===== Nameserver Sanity ====='')]"
    by (simp_all add: nameserver_sanity_eq Let_def init_simps)
  show ?thesis
    using a g e h
      nameserver_sanity_glue [OF refl surjective_pairing, of "always ''ns1.example.com''" init]
      nameserver_sanity_glue [OF refl surjective_pairing, of "always []" init]
    by (auto simp: init_simps)
qed

section \<open>DNS audit\<close>

lemma dig_args_resolver: "dig_args fqdn ''CNAME'' (Some r) = cname_query fqdn r"
  by (simp add: dig_args_def cname_query_def)


lemma count_matching_eq:
  "count_matching w fqdn target rs s =
     (Inr (int (length (filter (\<lambda>a. first_or_empty a = target) (answers w (length (invoked s)) fqdn rs)))),
      s\<lparr>invoked := invoked s @ map (cname_query fqdn) rs\<rparr>)"
proof (induction rs arbitrary: s)
  case Nil
  show ?case by (simp add: ret_def)
next
  case (Cons r rs)
  show ?case by (simp add: ret_def bnd_def dig_eq answer_def dig_args_resolver Cons.IH)
qed

lemma first_or_empty_matches: "target \<noteq> [] \<Longrightarrow> (first_or_empty a = target) = matches target a"
  by (cases a) (auto simp: first_or_empty_def matches_def)



lemma audit_host_plain:
  assumes "answer w (length (invoked s)) (host @ ''.'' @ CUSTOM_DOMAIN) ''CNAME'' None = cname0 # others"
    and "host \<noteq> CNAME_1_HOST"
  shows "audit_host w ns_list (host, expected) s =
     (let fqdn = host @ ''.'' @ CUSTOM_DOMAIN; n = length (invoked s);
          pub = int (length (filter (matches cname0) (answers w (n + 1) fqdn RESOLVERS)));
          auth = int (length (filter (matches cname0) (answers w (n + 1 + length RESOLVERS) fqdn ns_list)))
      in (Inr (), s\<lparr>invoked := invoked s @ [dig_args fqdn ''CNAME'' None]
                       @ map (cname_query fqdn) RESOLVERS
                       @ map (cname_query fqdn) ns_list,
                 stdout := stdout s @ [Plain [Lit (CHR 0x0A # ''-- '' @ fqdn @ '' --'')],
                    Plain [Lit (''CNAME -> '' @ cname0)],
                    Plain [Lit ''Propagation -> public '', Num pub, Lit ''/'',
                           Num (int (length RESOLVERS)), Lit '' | authoritative '',
                           Num auth, Lit ''/'', Num (int (length ns_list))]]\<rparr>))"
proof -
  from assms(1) have "cname0 \<noteq> []" by (rule answer_first)
  then have m: "(\<lambda>a. first_or_empty a = cname0) = matches cname0"
    by (auto simp: first_or_empty_matches)
  show ?thesis
    using assms by (simp add: audit_host_def prog_defs dig_eq Let_def count_matching_eq m)
qed

lemma audit_host_verification:
  assumes "answer w (length (invoked s)) (CNAME_1_HOST @ ''.'' @ CUSTOM_DOMAIN) ''CNAME'' None = cname0 # others"
  shows "audit_host w ns_list (CNAME_1_HOST, expected) s =
     (let fqdn = CNAME_1_HOST @ ''.'' @ CUSTOM_DOMAIN; n = length (invoked s);
          a = answer w (n + 1) fqdn ''A'' None;
          pub = int (length (filter (matches cname0) (answers w (n + 2) fqdn RESOLVERS)));
          auth = int (length (filter (matches cname0) (answers w (n + 2 + length RESOLVERS) fqdn ns_list)))
      in (Inr (), s\<lparr>invoked := invoked s @ [dig_args fqdn ''CNAME'' None, dig_args fqdn ''A'' None]
                       @ map (cname_query fqdn) RESOLVERS
                       @ map (cname_query fqdn) ns_list,
                 stdout := stdout s @ [Plain [Lit (CHR 0x0A # ''-- '' @ fqdn @ '' --'')],
                    Plain [Lit (''CNAME -> '' @ cname0)],
                    if a \<noteq> [] then Warning [Lit ''Verification CNAME resolves to A-record -- NXDOMAIN expected'']
                    else Status True [Lit ''Verification CNAME NXDOMAIN on A lookup''],
                    Plain [Lit ''Propagation -> public '', Num pub, Lit ''/'',
                           Num (int (length RESOLVERS)), Lit '' | authoritative '',
                           Num auth, Lit ''/'', Num (int (length ns_list))]]\<rparr>))"
proof -
  from assms(1) have "cname0 \<noteq> []" by (rule answer_first)
  then have m: "(\<lambda>a. first_or_empty a = cname0) = matches cname0"
    by (auto simp: first_or_empty_matches)
  show ?thesis
    using assms by (simp add: audit_host_def prog_defs dig_eq Let_def count_matching_eq m)
qed








text \<open>
  C4. For the verification host with a local CNAME answer, the A lookup decides the
  third line printed: a success line when its answer is empty, a warning when it is not.
  Neither case raises or changes \<open>exit_code\<close>.
\<close>

theorem verification_cname_a_lookup:
  assumes "fqdn = CNAME_1_HOST @ ''.'' @ CUSTOM_DOMAIN"
    and "n = length (invoked s)"
    and "answer w n fqdn ''CNAME'' None \<noteq> []"
    and "a = answer w (n + 1) fqdn ''A'' None"
    and "audit_host w ns_list (CNAME_1_HOST, expected) s = (r, s')"
  shows "r = Inr () \<and> exit_code s' = exit_code s
     \<and> (a = [] \<longrightarrow> (\<exists>p q z. stdout s' = stdout s @
           [Plain p, Plain q, Status True [Lit ''Verification CNAME NXDOMAIN on A lookup''], Plain z]))
     \<and> (a \<noteq> [] \<longrightarrow> (\<exists>p q z. stdout s' = stdout s @
           [Plain p, Plain q,
            Warning [Lit ''Verification CNAME resolves to A-record -- NXDOMAIN expected''], Plain z]))"
proof -
  from assms(3) obtain cname0 others where "answer w n fqdn ''CNAME'' None = cname0 # others"
    by (cases "answer w n fqdn ''CNAME'' None") auto
  with assms show ?thesis
    by (auto simp: audit_host_verification Let_def)
qed


theorem verification_cname_a_lookup_witness:
  "answer (flaky 1 ''gv-1.dv.googlehosted.com.'') 0 (CNAME_1_HOST @ ''.'' @ CUSTOM_DOMAIN) ''CNAME'' None \<noteq> []
   \<and> answer (flaky 1 ''gv-1.dv.googlehosted.com.'') 1 (CNAME_1_HOST @ ''.'' @ CUSTOM_DOMAIN) ''A'' None = []
   \<and> stdout (snd (audit_host (flaky 1 ''gv-1.dv.googlehosted.com.'') [] (CNAME_1_HOST, CNAME_1_TARGET) init)) ! 2
       = Status True [Lit ''Verification CNAME NXDOMAIN on A lookup'']
   \<and> answer (always ''203.0.113.7'') 0 (CNAME_1_HOST @ ''.'' @ CUSTOM_DOMAIN) ''CNAME'' None \<noteq> []
   \<and> answer (always ''203.0.113.7'') 1 (CNAME_1_HOST @ ''.'' @ CUSTOM_DOMAIN) ''A'' None \<noteq> []
   \<and> stdout (snd (audit_host (always ''203.0.113.7'') [] (CNAME_1_HOST, CNAME_1_TARGET) init)) ! 2
       = Warning [Lit ''Verification CNAME resolves to A-record -- NXDOMAIN expected'']
   \<and> exit_code (snd (audit_host (always ''203.0.113.7'') [] (CNAME_1_HOST, CNAME_1_TARGET) init)) = 0"
proof -
  have c1: "answer (flaky 1 ''gv-1.dv.googlehosted.com.'') 0 (CNAME_1_HOST @ ''.'' @ CUSTOM_DOMAIN) ''CNAME'' None \<noteq> []"
    by code_simp
  have a1: "answer (flaky 1 ''gv-1.dv.googlehosted.com.'') 1 (CNAME_1_HOST @ ''.'' @ CUSTOM_DOMAIN) ''A'' None = []"
    by code_simp
  have c2: "answer (always ''203.0.113.7'') 0 (CNAME_1_HOST @ ''.'' @ CUSTOM_DOMAIN) ''CNAME'' None \<noteq> []"
    by code_simp
  have a2: "answer (always ''203.0.113.7'') 1 (CNAME_1_HOST @ ''.'' @ CUSTOM_DOMAIN) ''A'' None \<noteq> []"
    by code_simp
  show ?thesis
    using c1 a1 c2 a2
      verification_cname_a_lookup [where w = "flaky 1 ''gv-1.dv.googlehosted.com.''"
        and s = init and ns_list = "[]" and expected = CNAME_1_TARGET,
        OF refl refl _ refl surjective_pairing]
      verification_cname_a_lookup [where w = "always ''203.0.113.7''"
        and s = init and ns_list = "[]" and expected = CNAME_1_TARGET,
        OF refl refl _ refl surjective_pairing]
    by (auto simp: init_simps)
qed

section \<open>Self-test\<close>

lemma main_stops_with_self_test: "self_test w s = (Inl e, s') \<Longrightarrow> main w a s = (Inl e, s')"
  by (simp add: main_def seq_def bnd_def)

lemma ping_eq:
  "ping w ip s =
     (case spawn w (length (invoked s)) [''ping'', ''-c1'', ''-W1'', ip] of
        NotFound \<Rightarrow> Inl OSError
      | Exited rc out \<Rightarrow> Inr (rc = 0),
      s\<lparr>invoked := invoked s @ [[''ping'', ''-c1'', ''-W1'', ip]]\<rparr>)"
  by (simp add: ping_def call_def bnd_def ret_def Let_def split: completed.splits)

lemma curl_status_eq:
  "curl_status w url s =
     (Inr (run_output w (length (invoked s)) [''curl'', ''-s'', ''-o'', ''/dev/null'', ''-w'', ''%{http_code}'', url]),
      s\<lparr>invoked := invoked s @ [[''curl'', ''-s'', ''-o'', ''/dev/null'', ''-w'', ''%{http_code}'', url]]\<rparr>)"
  by (simp add: curl_status_def run_def)

lemma self_test_no_dig:
  assumes "\<not> which w ''dig''"
  shows "self_test w s =
    (Inl (SystemExit (exit_code s OR 1)),
     s\<lparr>stdout := stdout s @ [Plain [Lit (CHR 0x0A # ''===== blog-check.py v'' @ VERSION @ '' -- Self-Test ====='')],
                                Status False [Lit ''dig missing'']],
       exit_code := exit_code s OR 1\<rparr>)"
  using assms by (simp add: self_test_def prog_defs)

lemma self_test_unresolved:
  assumes "which w ''dig''" and "answer w (length (invoked s)) TEST_HOST ''A'' None = []"
  shows "self_test w s =
    (Inl (SystemExit (exit_code s OR 1)),
     s\<lparr>invoked := invoked s @ [dig_args TEST_HOST ''A'' None],
       stdout := stdout s @ [Plain [Lit (CHR 0x0A # ''===== blog-check.py v'' @ VERSION @ '' -- Self-Test ====='')],
                                Status False [Lit (''DNS resolves '' @ TEST_HOST @ '' -> '')],
                                Status False [Lit ''ping failed'']],
       exit_code := exit_code s OR 1\<rparr>)"
  using assms by (simp add: self_test_def prog_defs dig_eq ac_simps)


lemma self_test_resolved:
  assumes "which w ''dig''" and "answer w (length (invoked s)) TEST_HOST ''A'' None \<noteq> []"
  shows "self_test w s =
    (let n = length (invoked s);
         d = dig_args TEST_HOST ''A'' None;
         hdr = Plain [Lit (CHR 0x0A # ''===== blog-check.py v'' @ VERSION @ '' -- Self-Test ====='')];
         curl = [''curl'', ''-s'', ''-o'', ''/dev/null'', ''-w'', ''%{http_code}'', ''https://'' @ TEST_HOST]
     in case answer w (n + 1) TEST_HOST ''A'' None of
          [] \<Rightarrow> (Inl IndexError, s\<lparr>invoked := invoked s @ [d, d], stdout := stdout s @ [hdr]\<rparr>)
        | ip # _ \<Rightarrow>
           (let resolved = Status True [Lit (''DNS resolves '' @ TEST_HOST @ '' -> '' @ ip)];
                p = [''ping'', ''-c1'', ''-W1'', ip]
            in case spawn w (n + 2) p of
                 NotFound \<Rightarrow>
                   (Inl OSError, s\<lparr>invoked := invoked s @ [d, d, p],
                                      stdout := stdout s @ [hdr, resolved]\<rparr>)
               | Exited rc out \<Rightarrow>
                   if rc \<noteq> 0 then
                     (Inl (SystemExit (exit_code s OR 1)),
                      s\<lparr>invoked := invoked s @ [d, d, p],
                        stdout := stdout s @ [hdr, resolved, Status False [Lit ''ping failed'']],
                        exit_code := exit_code s OR 1\<rparr>)
                   else if run_output w (n + 3) curl \<noteq> ''200'' then
                     (Inl (SystemExit (exit_code s OR 1)),
                      s\<lparr>invoked := invoked s @ [d, d, p, curl],
                        stdout := stdout s @ [hdr, resolved, Status True [Lit ''ping OK''],
                          Status False [Lit (''HTTPS status '' @ run_output w (n + 3) curl)]],
                        exit_code := exit_code s OR 1\<rparr>)
                   else
                     (Inr (),
                      s\<lparr>invoked := invoked s @ [d, d, p, curl],
                        stdout := stdout s @ [hdr, resolved, Status True [Lit ''ping OK''],
                          Status True [Lit ''HTTPS OK''], Plain [Lit ''Self-tests passed'']]\<rparr>)))"
proof (cases "answer w (length (invoked s) + 1) TEST_HOST ''A'' None")
  case Nil
  with assms show ?thesis
    by (simp add: self_test_def prog_defs dig_eq subscript_def Let_def)
next
  case (Cons ip ips)
  then have ip: "ip \<noteq> []" by (rule answer_first)
  show ?thesis
  proof (cases "spawn w (length (invoked s) + 2) [''ping'', ''-c1'', ''-W1'', ip]")
    case NotFound
    with assms Cons ip show ?thesis
      by (simp add: self_test_def prog_defs dig_eq subscript_def Let_def ping_eq)
  next
    case (Exited rc out)
    with assms Cons ip show ?thesis
      by (simp add: self_test_def prog_defs dig_eq subscript_def Let_def ping_eq curl_status_eq
          numeral_3_eq_3)
  qed
qed


lemma self_test_failure:
  assumes "\<not> which w ''dig''
         \<or> answer w 0 TEST_HOST ''A'' None = []
         \<or> (\<forall>out. spawn w 2 [''ping'', ''-c1'', ''-W1'', hd (answer w 1 TEST_HOST ''A'' None)]
                  \<noteq> Exited 0 out)
         \<or> run_output w 3 [''curl'', ''-s'', ''-o'', ''/dev/null'', ''-w'', ''%{http_code}'',
                  ''https://'' @ TEST_HOST] \<noteq> ''200''"
  shows "\<exists>e s'. self_test w init = (Inl e, s') \<and> exit_status (Inl e) \<noteq> 0
           \<and> length (invoked s') \<le> 4"
proof (cases "which w ''dig''")
  case False
  then show ?thesis by (simp add: self_test_no_dig init_simps)
next
  case dig: True
  show ?thesis
  proof (cases "answer w 0 TEST_HOST ''A'' None = []")
    case True
    with dig show ?thesis by (simp add: self_test_unresolved init_simps)
  next
    case found: False
    show ?thesis
    proof (cases "answer w 1 TEST_HOST ''A'' None")
      case Nil
      with dig found show ?thesis by (simp add: self_test_resolved init_simps Let_def numeral_2_eq_2 numeral_3_eq_3)
    next
      case (Cons ip ips)
      show ?thesis
      proof (cases "spawn w 2 [''ping'', ''-c1'', ''-W1'', ip]")
        case NotFound
        with dig found Cons show ?thesis by (simp add: self_test_resolved init_simps Let_def numeral_2_eq_2 numeral_3_eq_3)
      next
        case (Exited rc out)
        show ?thesis
        proof (cases "rc = 0")
          case False
          with dig found Cons Exited show ?thesis
            by (simp add: self_test_resolved init_simps Let_def numeral_2_eq_2 numeral_3_eq_3)
        next
          case True
          with assms dig found Cons Exited
          have "run_output w 3 [''curl'', ''-s'', ''-o'', ''/dev/null'', ''-w'', ''%{http_code}'',
                  ''https://'' @ TEST_HOST] \<noteq> ''200''"
            by auto
          with dig found Cons Exited True show ?thesis
            by (simp add: self_test_resolved init_simps Let_def numeral_2_eq_2 numeral_3_eq_3)
        qed
      qed
    qed
  qed
qed

text \<open>
  C3. Counting the child processes of a run from 0: when \<open>dig\<close> is not installed, or
  the first lookup of the test host has no answer, or the ping of the resolved address
  does not exit with 0, or the status fetched for the test host is not \<open>200\<close> (the empty
  string of a failed fetch included), the run ends with an exception and a nonzero exit
  status, in the very state in which \<open>self_test\<close> raised: no later stage has started a
  process or printed a line.
\<close>

theorem self_test_fail_fast:
  assumes "\<not> which w ''dig''
         \<or> answer w 0 TEST_HOST ''A'' None = []
         \<or> (\<forall>out. spawn w 2 [''ping'', ''-c1'', ''-W1'', hd (answer w 1 TEST_HOST ''A'' None)]
                  \<noteq> Exited 0 out)
         \<or> run_output w 3 [''curl'', ''-s'', ''-o'', ''/dev/null'', ''-w'', ''%{http_code}'',
                  ''https://'' @ TEST_HOST] \<noteq> ''200''"
  shows "\<exists>e s'. main w a init = (Inl e, s') \<and> self_test w init = (Inl e, s')
           \<and> exit_status (Inl e) \<noteq> 0 \<and> length (invoked s') \<le> 4"
  using self_test_failure [OF assms] main_stops_with_self_test by blast


theorem self_test_fail_fast_witness:
  "run_output (flaky 3 ''142.250.1.1'') 3
      [''curl'', ''-s'', ''-o'', ''/dev/null'', ''-w'', ''%{http_code}'', ''https://'' @ TEST_HOST] = []
   \<and> (\<exists>e s'. main (flaky 3 ''142.250.1.1'') \<lparr>advanced = True, debug = True\<rparr> init = (Inl e, s')
         \<and> self_test (flaky 3 ''142.250.1.1'') init = (Inl e, s')
         \<and> exit_status (Inl e) \<noteq> 0 \<and> length (invoked s') \<le> 4)
   \<and> answer (always []) 0 TEST_HOST ''A'' None = []
   \<and> (\<exists>e s'. main (always []) \<lparr>advanced = False, debug = False\<rparr> init = (Inl e, s')
         \<and> self_test (always []) init = (Inl e, s')
         \<and> exit_status (Inl e) \<noteq> 0 \<and> length (invoked s') \<le> 4)"
proof -
  have c: "run_output (flaky 3 ''142.250.1.1'') 3
      [''curl'', ''-s'', ''-o'', ''/dev/null'', ''-w'', ''%{http_code}'', ''https://'' @ TEST_HOST] = []"
    by code_simp
  have d: "answer (always []) 0 TEST_HOST ''A'' None = []"
    by code_simp
  show ?thesis
    using c d
      self_test_fail_fast [of "flaky 3 ''142.250.1.1''" "\<lparr>advanced = True, debug = True\<rparr>"]
      self_test_fail_fast [of "always []" "\<lparr>advanced = False, debug = False\<rparr>"]
    by simp
qed

section \<open>The accumulated exit status\<close>

lemma keeps_ret: "keeps I E (ret x)"
  by (simp add: keeps_def ret_def)

lemma keeps_bnd:
  assumes "keeps I E m" and "\<And>x. keeps I E (f x)"
  shows "keeps I E (bnd m f)"
  unfolding keeps_def
proof (intro allI impI)
  fix s assume s: "I s"
  obtain r s1 where m: "m s = (r, s1)" by (cases "m s")
  with assms(1) s have 1: "I s1" and 2: "\<And>e. r = Inl e \<Longrightarrow> E e s1"
    by (auto simp: keeps_def)
  show "I (snd (bnd m f s)) \<and> (\<forall>e. fst (bnd m f s) = Inl e \<longrightarrow> E e (snd (bnd m f s)))"
  proof (cases r)
    case (Inl e)
    with m 1 2 show ?thesis by (simp add: bnd_def)
  next
    case (Inr x)
    with m have "bnd m f s = f x s1" by (simp add: bnd_def)
    with assms(2) [of x] 1 show ?thesis by (simp add: keeps_def)
  qed
qed

lemma keeps_seq: "keeps I E m \<Longrightarrow> keeps I E n \<Longrightarrow> keeps I E (seq m n)"
  by (simp add: seq_def keeps_bnd)

lemma keeps_if_stmt: "keeps I E m \<Longrightarrow> keeps I E (if_stmt b m)"
  by (simp add: if_stmt_def keeps_ret)

lemma keeps_if: "keeps I E m \<Longrightarrow> keeps I E n \<Longrightarrow> keeps I E (if b then m else n)"
  by simp

lemma keeps_block_Nil: "keeps I E (block [])"
  by (simp add: keeps_ret)

lemma keeps_block_Cons: "keeps I E m \<Longrightarrow> keeps I E (block ms) \<Longrightarrow> keeps I E (block (m # ms))"
  by (simp add: keeps_seq)

lemma keeps_for_each: "(\<And>x. keeps I E (body x)) \<Longrightarrow> keeps I E (for_each body xs)"
  by (induction xs) (simp_all add: keeps_ret keeps_seq)

lemma keeps_lift: "stable I E \<Longrightarrow> keeps I E (lift (subscript xs i))"
  by (auto simp: keeps_def lift_def subscript_def stable_def)

lemma keeps_lift_first_location: "stable I E \<Longrightarrow> keeps I E (lift (first_location h))"
proof -
  have "first_location h = Inl e \<Longrightarrow> e = IndexError" for e
    by (induction h) (auto simp: subscript_def split: if_splits)
  then show "stable I E \<Longrightarrow> keeps I E (lift (first_location h))"
    by (auto simp: keeps_def lift_def stable_def)
qed

lemma keeps_lift_status_code: "stable I E \<Longrightarrow> keeps I E (lift (status_code h))"
  by (auto simp: keeps_def lift_def stable_def status_code_def subscript_def and_then_def
      split: if_splits)

lemma keeps_print: "stable I E \<Longrightarrow> \<not> is_failure l \<Longrightarrow> keeps I E (print l)"
  by (simp add: keeps_def print_def stable_def)

lemma keeps_print_warning: "stable I E \<Longrightarrow> keeps I E (print_warning m)"
  by (simp add: print_warning_def keeps_print is_failure_def)

lemma keeps_print_success: "stable I E \<Longrightarrow> keeps I E (print_status True m)"
  by (simp add: print_status_def keeps_seq keeps_print keeps_ret is_failure_def)

lemma keeps_accumulate: "stable I E \<Longrightarrow> keeps I E (accumulate (print_status ok m))"
  by (simp add: keeps_def stable_def prog_defs)

lemma keeps_sys_exit: "stable I E \<Longrightarrow> keeps I E sys_exit"
  by (simp add: keeps_def stable_def sys_exit_def)

lemma keeps_run: "stable I E \<Longrightarrow> keeps I E (run w cmd)"
  by (simp add: keeps_def stable_def run_def)

lemma keeps_dig: "stable I E \<Longrightarrow> keeps I E (dig w name rtype res)"
  by (simp add: keeps_def stable_def dig_eq)

lemma keeps_curl_status: "stable I E \<Longrightarrow> keeps I E (curl_status w url)"
  by (simp add: curl_status_def keeps_run)

lemma keeps_curl_headers: "stable I E \<Longrightarrow> keeps I E (curl_headers w url)"
  by (simp add: keeps_def stable_def curl_headers_eq)

lemma keeps_set_last_headers: "stable I E \<Longrightarrow> keeps I E (set_last_headers h)"
  by (simp add: keeps_def stable_def set_last_headers_def)

lemma keeps_call:
  assumes "stable I E"
  shows "keeps I E (call w quiet cmd)"
  unfolding keeps_def
proof (intro allI impI)
  fix s assume s: "I s"
  let ?s1 = "s\<lparr>invoked := invoked s @ [cmd]\<rparr>"
  from assms s have 1: "I ?s1" by (simp add: stable_def)
  from assms 1 have err: "E OSError ?s1" unfolding stable_def by blast
  from assms have st: "\<And>s l. I s \<Longrightarrow> \<not> is_failure l \<Longrightarrow> I (s\<lparr>stdout := stdout s @ [l]\<rparr>)"
    unfolding stable_def by blast
  have out: "I (?s1\<lparr>stdout := stdout ?s1 @ [Passthrough t]\<rparr>)" for t
    by (rule st [OF 1]) (simp add: is_failure_def)
  show "I (snd (call w quiet cmd s)) \<and>
        (\<forall>e. fst (call w quiet cmd s) = Inl e \<longrightarrow> E e (snd (call w quiet cmd s)))"
  proof (cases "spawn w (length (invoked s)) cmd")
    case NotFound
    with 1 err show ?thesis by (simp add: call_def Let_def)
  next
    case (Exited rc t)
    with 1 out [of t] show ?thesis by (simp add: call_def Let_def prog_defs)
  qed
qed

lemma keeps_ping: "stable I E \<Longrightarrow> keeps I E (ping w ip)"
  by (simp add: ping_def keeps_bnd keeps_call keeps_ret)


lemmas keeps_rules = keeps_ret keeps_bnd keeps_seq keeps_if_stmt keeps_if keeps_block_Nil
  keeps_block_Cons keeps_for_each keeps_lift keeps_lift_first_location keeps_lift_status_code
  keeps_print_warning keeps_print_success keeps_accumulate keeps_sys_exit keeps_run
  keeps_dig keeps_curl_status keeps_curl_headers keeps_set_last_headers keeps_call keeps_ping

lemma keeps_plain: "stable I E \<Longrightarrow> keeps I E (print (Plain m))"
  by (simp add: keeps_print is_failure_def)

lemma keeps_self_test: "stable I E \<Longrightarrow> keeps I E (self_test w)"
  unfolding self_test_def by (intro keeps_rules keeps_plain) 

lemma keeps_nameserver_sanity: "stable I E \<Longrightarrow> keeps I E (nameserver_sanity w)"
  unfolding nameserver_sanity_def Let_def by (intro keeps_rules keeps_plain)

lemma keeps_count_matching: "stable I E \<Longrightarrow> keeps I E (count_matching w fqdn target rs)"
  by (induction rs) (simp_all add: keeps_rules)

lemma keeps_root_a_record_check: "stable I E \<Longrightarrow> keeps I E (root_a_record_check w)"
  unfolding root_a_record_check_def by (intro keeps_rules keeps_plain)

lemma keeps_redirect_check: "stable I E \<Longrightarrow> keeps I E (redirect_check w mode)"
  unfolding redirect_check_def by (intro keeps_rules)

lemma keeps_https_status: "stable I E \<Longrightarrow> keeps I E (https_status w)"
  unfolding https_status_def by (intro keeps_rules keeps_plain)

lemma keeps_advanced_diagnostics: "stable I E \<Longrightarrow> keeps I E (advanced_diagnostics w)"
  unfolding advanced_diagnostics_def by (intro keeps_rules keeps_plain)


lemma keeps_case_list:
  "keeps I E a \<Longrightarrow> (\<And>x xs. keeps I E (f x xs)) \<Longrightarrow> keeps I E (case l of [] \<Rightarrow> a | x # xs \<Rightarrow> f x xs)"
  by (cases l) simp_all

lemma keeps_case_prod:
  "(\<And>a b. keeps I E (f a b)) \<Longrightarrow> keeps I E (case p of (a, b) \<Rightarrow> f a b)"
  by (cases p) simp

lemma keeps_audit_host: "stable I E \<Longrightarrow> keeps I E (audit_host w ns_list p)"
  unfolding audit_host_def Let_def
  by (intro keeps_rules keeps_plain keeps_case_prod keeps_case_list keeps_count_matching)

lemma keeps_dns_audit: "stable I E \<Longrightarrow> keeps I E (dns_audit w ns_list)"
  unfolding dns_audit_def by (intro keeps_rules keeps_plain keeps_audit_host)

lemma keeps_state_dependent: "(\<And>s0. keeps I E (f s0)) \<Longrightarrow> keeps I E (\<lambda>s. f s s)"
  by (simp add: keeps_def)

lemma keeps_debug_info: "stable I E \<Longrightarrow> keeps I E (debug_info w)"
  unfolding debug_info_def
  by (intro keeps_rules keeps_plain
      keeps_state_dependent [of I E "\<lambda>s0. if_stmt (last_headers s0 \<noteq> []) (print (Plain [Lit (join [CHR 0x0A] (last_headers s0))]))"])

lemma keeps_main: "stable I E \<Longrightarrow> keeps I E (main w a)"
  unfolding main_def
  by (intro keeps_rules keeps_self_test keeps_nameserver_sanity keeps_dns_audit
      keeps_root_a_record_check keeps_redirect_check keeps_https_status
      keeps_advanced_diagnostics keeps_debug_info)

lemma int_or_one_ge: "(x::int) \<le> x OR 1"
  by (simp add: or_one_eq)

lemma stable_or:
  "stable (\<lambda>s. exit_code s = e \<or> exit_code s = e OR 1) (\<lambda>_ _. True)"
  unfolding stable_def by (auto simp: ac_simps)

lemma failure_reported_print:
  "failure_reported (s\<lparr>stdout := stdout s @ [l]\<rparr>) = (failure_reported s \<or> is_failure l)"
  by (simp add: failure_reported_def)

lemma stable_failure:
  "stable (\<lambda>s. (exit_code s \<noteq> 0) = failure_reported s)
          (\<lambda>e s. \<forall>c. e = SystemExit c \<longrightarrow> c = exit_code s)"
  unfolding stable_def
  by (auto simp: failure_reported_def is_failure_def or_one_nonzero)

lemma keeps_grows_by_or:
  assumes "\<And>I E. stable I E \<Longrightarrow> keeps I E m"
  shows "grows_by_or m"
  unfolding grows_by_or_def
proof
  fix s :: state
  have "keeps (\<lambda>t. exit_code t = exit_code s \<or> exit_code t = exit_code s OR 1) (\<lambda>_ _. True) m"
    by (rule assms) (rule stable_or)
  then have 1: "exit_code (snd (m s)) = exit_code s \<or> exit_code (snd (m s)) = exit_code s OR 1"
    by (simp add: keeps_def)
  then have "exit_code s \<le> exit_code (snd (m s))"
    using int_or_one_ge [of "exit_code s"] by auto
  with 1 show "(exit_code (snd (m s)) = exit_code s \<or> exit_code (snd (m s)) = exit_code s OR 1)
      \<and> exit_code s \<le> exit_code (snd (m s))"
    by simp
qed

lemma main_failure_flag:
  "(exit_code (snd (main w a init)) \<noteq> 0) = failure_reported (snd (main w a init))"
  "fst (main w a init) = Inl (SystemExit c) \<Longrightarrow> c = exit_code (snd (main w a init))"
proof -
  have k: "keeps (\<lambda>s. (exit_code s \<noteq> 0) = failure_reported s)
          (\<lambda>e s. \<forall>c. e = SystemExit c \<longrightarrow> c = exit_code s) (main w a)"
    by (rule keeps_main) (rule stable_failure)
  have i: "(exit_code init \<noteq> 0) = failure_reported init"
    by (simp add: init_def failure_reported_def)
  from k i show "(exit_code (snd (main w a init)) \<noteq> 0) = failure_reported (snd (main w a init))"
    unfolding keeps_def by blast
  from k i show "fst (main w a init) = Inl (SystemExit c) \<Longrightarrow> c = exit_code (snd (main w a init))"
    unfolding keeps_def by blast
qed


lemma block_raises:
  assumes "\<And>t. \<exists>e. fst (m t) = Inl e" and "m \<in> set ms"
  shows "\<exists>e. fst (block ms t) = Inl e"
  using assms(2)
proof (induction ms arbitrary: t)
  case Nil
  then show ?case by simp
next
  case (Cons n ns)
  obtain r u where n: "n t = (r, u)" by (cases "n t")
  show ?case
  proof (cases r)
    case (Inl e)
    with n show ?thesis by (simp add: seq_def bnd_def)
  next
    case (Inr x)
    show ?thesis
    proof (cases "m = n")
      case True
      with assms(1) [of t] n Inr show ?thesis by simp
    next
      case False
      with Cons.prems have "m \<in> set ns" by simp
      then have "\<exists>e. fst (block ns u) = Inl e" by (rule Cons.IH)
      with n Inr show ?thesis by (simp add: seq_def bnd_def)
    qed
  qed
qed

lemma bnd_raises:
  assumes "\<And>x u. \<exists>e. fst (f x u) = Inl e"
  shows "\<exists>e. fst (bnd m f t) = Inl e"
proof (cases "m t")
  case (Pair r u)
  show ?thesis
  proof (cases r)
    case (Inl e)
    with Pair show ?thesis by (simp add: bnd_def)
  next
    case (Inr x)
    with Pair assms [of x u] show ?thesis by (simp add: bnd_def)
  qed
qed

lemma main_raises: "\<exists>e. fst (main w a s) = Inl e"
proof -
  have x: "\<exists>e. fst (sys_exit t) = Inl e" for t
    by (simp add: sys_exit_def)
  show ?thesis
    unfolding main_def seq_def
    by (intro bnd_raises block_raises [of sys_exit] x) simp
qed

text \<open>
  C1. \<open>exit_code\<close> starts at 0. Every stage, and the whole of \<open>main\<close>, leaves it as it
  was or OR-ed with 1, so never smaller; \<open>print_warning\<close> leaves it as it was. At the end
  of a run from the initial state, a failure line in the output means a nonzero exit
  status; and when no failure line was printed, \<open>exit_code\<close> is 0 and a run that ends in
  \<open>sys.exit\<close> has exit status 0, whatever warnings were printed.
\<close>

theorem exit_status_accumulates:
  "exit_code init = 0
   \<and> grows_by_or (accumulate (print_status ok m))
   \<and> grows_by_or (self_test w)
   \<and> grows_by_or (nameserver_sanity w)
   \<and> grows_by_or (dns_audit w ns_list)
   \<and> grows_by_or (root_a_record_check w)
   \<and> grows_by_or (redirect_check w mode)
   \<and> grows_by_or (https_status w)
   \<and> grows_by_or (advanced_diagnostics w)
   \<and> grows_by_or (debug_info w)
   \<and> grows_by_or (main w a)
   \<and> (failure_reported (snd (main w a init)) \<longrightarrow> exit_status (fst (main w a init)) \<noteq> 0)
   \<and> (\<not> failure_reported (snd (main w a init)) \<longrightarrow>
         exit_code (snd (main w a init)) = 0
         \<and> (\<forall>c. fst (main w a init) = Inl (SystemExit c) \<longrightarrow> exit_status (fst (main w a init)) = 0))
   \<and> exit_code (snd (print_warning m s)) = exit_code s"
proof -
  have f: "failure_reported (snd (main w a init)) \<Longrightarrow> exit_status (fst (main w a init)) \<noteq> 0"
  proof -
    assume r: "failure_reported (snd (main w a init))"
    obtain e where e: "fst (main w a init) = Inl e" using main_raises by blast
    show ?thesis
    proof (cases e)
      case (SystemExit c)
      with e r main_failure_flag [of w a] show ?thesis by auto
    next
      case IndexError
      with e show ?thesis by simp
    next
      case OSError
      with e show ?thesis by simp
    qed
  qed
  have n: "\<not> failure_reported (snd (main w a init)) \<Longrightarrow>
      exit_code (snd (main w a init)) = 0
      \<and> (\<forall>c. fst (main w a init) = Inl (SystemExit c) \<longrightarrow> exit_status (fst (main w a init)) = 0)"
    using main_failure_flag [of w a] by auto
  have p: "exit_code (snd (print_warning m s)) = exit_code s"
    by (simp add: print_warning_def print_def)
  show ?thesis
    by (intro conjI impI keeps_grows_by_or keeps_accumulate keeps_self_test
        keeps_nameserver_sanity keeps_dns_audit keeps_root_a_record_check keeps_redirect_check
        keeps_https_status keeps_advanced_diagnostics keeps_debug_info keeps_main f p
        n [THEN conjunct1] n [THEN conjunct2]) (simp_all add: init_simps)
qed




lemma https_status_eq:
  "https_status w s =
    (let n = length (invoked s);
         c1 = [''curl'', ''-s'', ''-o'', ''/dev/null'', ''-w'', ''%{http_code}'', ''https://www.'' @ CUSTOM_DOMAIN];
         c2 = [''curl'', ''-s'', ''-o'', ''/dev/null'', ''-w'', ''%{http_code}'', ''http://www.'' @ CUSTOM_DOMAIN];
         ok1 = (run_output w n c1 = ''200'');
         ok2 = (run_output w (n + 1) c2 = ''301'')
     in (Inr (), s\<lparr>invoked := invoked s @ [c1, c2],
                    stdout := stdout s @ [Plain [Lit (CHR 0x0A # ''===== Blogger HTTPS Status ====='')],
                      Status ok1 [Lit ''HTTPS enabled''],
                      Status ok2 [Lit ''HTTP->HTTPS redirect enabled'']],
                    exit_code := (exit_code s OR of_bool (\<not> ok1)) OR of_bool (\<not> ok2)\<rparr>))"
  by (simp add: https_status_def prog_defs curl_status_eq Let_def)

lemma healthy_answers:
  "which healthy ''dig''"
  "answer healthy n TEST_HOST ''A'' None = [''142.250.74.68'']"
  "spawn healthy n [''ping'', ''-c1'', ''-W1'', ''142.250.74.68''] = Exited 0 []"
  "run_output healthy n [''curl'', ''-s'', ''-o'', ''/dev/null'', ''-w'', ''%{http_code}'', ''https://'' @ TEST_HOST] = ''200''"
  "answer healthy n CUSTOM_DOMAIN ''NS'' None = [''ns1.dns.net.'', ''ns2.dns.net.'']"
  "answer healthy n (''www'' @ ''.'' @ CUSTOM_DOMAIN) ''CNAME'' None = [''ghs.google.com.'']"
  "answer healthy n (BLOG_SUBDOMAIN @ ''.'' @ CUSTOM_DOMAIN) ''CNAME'' None = [''ghs.google.com.'']"
  "answer healthy n (CNAME_1_HOST @ ''.'' @ CUSTOM_DOMAIN) ''CNAME'' None = [''ghs.google.com.'']"
  "answer healthy n (CNAME_1_HOST @ ''.'' @ CUSTOM_DOMAIN) ''A'' None = [''203.0.113.7'']"
  "answer healthy n CUSTOM_DOMAIN ''A'' None = BLOGGER_IPS"
  "splitlines (run_output healthy n [''curl'', ''-sI'', ''--max-time'', ''5'', ''https://'' @ CUSTOM_DOMAIN])
     = [''HTTP/1.1 301 Moved Permanently'', ''Location: https://www.example.com/'']"
  "run_output healthy n [''curl'', ''-s'', ''-o'', ''/dev/null'', ''-w'', ''%{http_code}'', ''https://www.'' @ CUSTOM_DOMAIN] = ''200''"
  "run_output healthy n [''curl'', ''-s'', ''-o'', ''/dev/null'', ''-w'', ''%{http_code}'', ''http://www.'' @ CUSTOM_DOMAIN] = ''301''"
  unfolding answer_def run_output_def healthy_def env.simps by code_simp+

lemma healthy_parse:
  "status_code [''HTTP/1.1 301 Moved Permanently'', ''Location: https://www.example.com/''] = Inr ''301''"
  "first_location [''HTTP/1.1 301 Moved Permanently'', ''Location: https://www.example.com/'']
     = Inr (''https://www.'' @ CUSTOM_DOMAIN @ ''/'')"
  "\<not> suffix CUSTOM_DOMAIN ''ns1.dns.net.''" "\<not> suffix CUSTOM_DOMAIN ''ns2.dns.net.''"
  "''www'' \<noteq> CNAME_1_HOST" "BLOG_SUBDOMAIN \<noteq> CNAME_1_HOST"
  by code_simp+


lemma healthy_run:
  "fst (main healthy \<lparr>advanced = False, debug = False\<rparr> init) = Inl (SystemExit 0)"
  "Warning [Lit ''Verification CNAME resolves to A-record -- NXDOMAIN expected'']
     \<in> set (stdout (snd (main healthy \<lparr>advanced = False, debug = False\<rparr> init)))"
  by (simp_all add: main_def seq_def bnd_def self_test_resolved nameserver_sanity_eq dns_audit_def
      audit_host_plain [where ?cname0.0 = "''ghs.google.com.''" and others = "[]"]
      audit_host_verification [where ?cname0.0 = "''ghs.google.com.''" and others = "[]"]
      root_a_record_check_eq redirect_check_eq https_status_eq healthy_answers
      healthy_answers [simplified] healthy_parse healthy_parse [simplified]
      init_simps Let_def if_stmt_def ret_def sys_exit_def print_def)

theorem exit_status_accumulates_witness:
  "failure_reported (snd (main (always []) \<lparr>advanced = True, debug = True\<rparr> init))
   \<and> exit_status (fst (main (always []) \<lparr>advanced = True, debug = True\<rparr> init)) \<noteq> 0
   \<and> \<not> failure_reported (snd (main healthy \<lparr>advanced = False, debug = False\<rparr> init))
   \<and> Warning [Lit ''Verification CNAME resolves to A-record -- NXDOMAIN expected'']
       \<in> set (stdout (snd (main healthy \<lparr>advanced = False, debug = False\<rparr> init)))
   \<and> fst (main healthy \<lparr>advanced = False, debug = False\<rparr> init) = Inl (SystemExit 0)
   \<and> exit_status (fst (main healthy \<lparr>advanced = False, debug = False\<rparr> init)) = 0"
proof -
  have 1: "failure_reported (snd (main (always []) \<lparr>advanced = True, debug = True\<rparr> init))"
    by code_simp
  have 2: "exit_code (snd (main healthy \<lparr>advanced = False, debug = False\<rparr> init)) = 0"
    using healthy_run(1) main_failure_flag(2) [of healthy "\<lparr>advanced = False, debug = False\<rparr>" 0]
    by simp
  then have 3: "\<not> failure_reported (snd (main healthy \<lparr>advanced = False, debug = False\<rparr> init))"
    using main_failure_flag(1) [of healthy "\<lparr>advanced = False, debug = False\<rparr>"] by simp
  show ?thesis
    using 1 3 healthy_run
      exit_status_accumulates [where w = "always []" and a = "\<lparr>advanced = True, debug = True\<rparr>"]
      exit_status_accumulates [where w = healthy and a = "\<lparr>advanced = False, debug = False\<rparr>"]
    by simp
qed

section \<open>Parsing the redirect headers\<close>

text \<open>
  When both the status code and the location can be read from the headers,
  \<open>redirect_check\<close> prints one line, a success exactly when the code is \<open>301\<close> and the
  location is \<open>https://www.\<close> followed by the domain and a slash, and ORs 1 into
  \<open>exit_code\<close> otherwise.
\<close>

lemma redirect_check_verdict:
  assumes "h = splitlines (run_output w (length (invoked s))
              [''curl'', ''-sI'', ''--max-time'', ''5'', ''https://'' @ CUSTOM_DOMAIN])"
    and "status_code h = Inr status" and "first_location h = Inr location"
    and "redirect_check w ''blogger'' s = (r, s')"
  shows "r = Inr ()
     \<and> stdout s' = stdout s @ [Status (status = ''301'' \<and> location = ''https://www.'' @ CUSTOM_DOMAIN @ ''/'')
                                    [Lit ''HTTP 301 -> www'']]
     \<and> (status = ''301'' \<and> location = ''https://www.'' @ CUSTOM_DOMAIN @ ''/'' \<longrightarrow> exit_code s' = exit_code s)
     \<and> (\<not> (status = ''301'' \<and> location = ''https://www.'' @ CUSTOM_DOMAIN @ ''/'') \<longrightarrow>
           exit_code s' = exit_code s OR 1)"
  using assms by (auto simp: redirect_check_eq Let_def)

text \<open>
  C6. The headers \<open>HTTP/1.1 301 Moved Permanently\<close>, \<open>Location:\<close>, \<open>Server: ghs\<close> deviate
  from the expected redirect, since the location has no value. \<open>redirect_check\<close> does
  not report a failure for them: the subscript \<open>l.split()[1]\<close> raises \<open>IndexError\<close> after
  the headers were stored, nothing is printed and \<open>exit_code\<close> is still 0.
\<close>

theorem redirect_check_unreported_deviation:
  "redirect_check
     (always (''HTTP/1.1 301 Moved Permanently'' @ [CHR 0x0D, CHR 0x0A] @ ''Location:''
              @ [CHR 0x0D, CHR 0x0A] @ ''Server: ghs'' @ [CHR 0x0D, CHR 0x0A, CHR 0x0D, CHR 0x0A]))
     ''blogger'' init =
   (Inl IndexError,
    \<lparr>exit_code = 0,
     last_headers = [''HTTP/1.1 301 Moved Permanently'', ''Location:'', ''Server: ghs''],
     stdout = [],
     invoked = [[''curl'', ''-sI'', ''--max-time'', ''5'', ''https://example.com'']]\<rparr>)"
  by code_simp

text \<open>
  C10. \<open>redirect_check\<close> is not total on header lines: a first line with one token only
  makes the status code raise \<open>IndexError\<close>, and so does a line \<open>Location:\<close> without a
  value for the location.
\<close>

theorem redirect_check_raises_on_short_lines:
  "status_code [''HTTP/1.1''] = Inl IndexError
   \<and> fst (redirect_check (always (''HTTP/1.1'' @ [CHR 0x0D, CHR 0x0A, CHR 0x0D, CHR 0x0A])) ''blogger'' init)
       = Inl IndexError
   \<and> first_location [''HTTP/1.1 200 OK'', ''Location:''] = Inl IndexError
   \<and> fst (redirect_check (always (''HTTP/1.1 200 OK'' @ [CHR 0x0D, CHR 0x0A] @ ''Location:''
              @ [CHR 0x0D, CHR 0x0A, CHR 0x0D, CHR 0x0A])) ''blogger'' init)
       = Inl IndexError"
  by code_simp

section \<open>Lookups of the self-test\<close>

text \<open>
  C9. In a world where the test host resolves, \<open>self_test\<close> starts the same lookup of
  the test host twice, once for the condition and once for the value of
  \<open>dig(TEST_HOST)[0] if dig(TEST_HOST) else ''\<close>; when the second lookup has no answer
  although the first had one, the subscript raises \<open>IndexError\<close>.
\<close>

theorem self_test_resolves_twice:
  "invoked (snd (self_test healthy init)) =
     [[''dig'', ''+short'', ''-t'', ''A'', ''www.google.com''],
      [''dig'', ''+short'', ''-t'', ''A'', ''www.google.com''],
      [''ping'', ''-c1'', ''-W1'', ''142.250.74.68''],
      [''curl'', ''-s'', ''-o'', ''/dev/null'', ''-w'', ''%{http_code}'', ''https://www.google.com'']]
   \<and> fst (self_test healthy init) = Inr ()
   \<and> fst (self_test (flaky 1 ''142.250.74.68'') init) = Inl IndexError"
  by code_simp

end
